theory Spec2Isabelle
  imports Complex_Main "HOL-Library.Multiset"
begin

section \<open>Data model\<close>

text \<open>
  The \<^verbatim>\<open>Expense\<close> interface of \<^verbatim>\<open>src/lib/types.ts\<close>. A JavaScript \<^verbatim>\<open>number\<close> is
  embedded as an exact rational: rounding, \<^verbatim>\<open>NaN\<close> and the infinities of IEEE doubles are
  outside the embedding. The field \<^verbatim>\<open>id\<close> is called \<open>expense_id\<close> here, since \<open>id\<close> is
  the identity function of HOL.
\<close>

datatype split_mode = Equal | Solo

record Expense =
  expense_id :: string
  trip_id :: string
  title :: string
  amount :: rat
  currency :: string
  category :: "string option"
  paid_by :: string
  split :: split_mode
  added_by :: string
  created_at :: string

text \<open>
  An entry of the \<^verbatim>\<open>debts\<close> array of \<^verbatim>\<open>summary\<close>:
  \<^verbatim>\<open>{ from: string; to: string; amount: number; currency: string }\<close>.
  The fields carry the prefix \<open>d_\<close>, as \<open>from\<close> is a keyword and \<open>amount\<close>,
  \<open>currency\<close> are fields of \<open>Expense\<close> already.
\<close>

record Debt =
  d_from :: string
  d_to :: string
  d_amount :: rat
  d_currency :: string

text \<open>
  The value returned by the \<^verbatim>\<open>summary\<close> memo: \<^verbatim>\<open>{ totals, perPerson, debts }\<close>.
  A \<^verbatim>\<open>Record<string, number>\<close> is a map from keys to numbers (a missing key reads
  \<^verbatim>\<open>undefined\<close>, here \<open>None\<close>); keys inherited from the prototype of a JavaScript object
  are outside the embedding.
\<close>

record Summary =
  totals :: "string \<rightharpoonup> rat"
  perPerson :: "string \<rightharpoonup> (string \<rightharpoonup> rat)"
  debts :: "Debt list"

definition PEOPLE :: "string list" where
  "PEOPLE = [''zeynep'', ''bartu'']"

section \<open>The budget calculation (the \<^verbatim>\<open>summary\<close> memo of the budget screen)\<close>

text \<open>\<^verbatim>\<open>x || 0\<close> on a number or \<^verbatim>\<open>undefined\<close>: a missing entry and 0 both read 0.\<close>

definition or0 :: "rat option \<Rightarrow> rat" where
  "or0 v = (case v of None \<Rightarrow> 0 | Some x \<Rightarrow> x)"

text \<open>\<^verbatim>\<open>totals[e.currency] = (totals[e.currency] || 0) + e.amount\<close>\<close>

definition add_total :: "'a Expense_scheme \<Rightarrow> (string \<rightharpoonup> rat) \<Rightarrow> (string \<rightharpoonup> rat)" where
  "add_total e t = t(currency e \<mapsto> or0 (t (currency e)) + amount e)"

text \<open>
  \<^verbatim>\<open>if (!perPerson[e.paid_by]) perPerson[e.paid_by] = {};\<close>
  \<^verbatim>\<open>perPerson[e.paid_by][e.currency] = (perPerson[e.paid_by][e.currency] || 0) + e.amount\<close>
\<close>

definition add_perPerson ::
  "'a Expense_scheme \<Rightarrow> (string \<rightharpoonup> (string \<rightharpoonup> rat)) \<Rightarrow> (string \<rightharpoonup> (string \<rightharpoonup> rat))" where
  "add_perPerson e pp =
     (let pp1 = (if pp (paid_by e) = None then pp(paid_by e \<mapsto> Map.empty) else pp)
      in case pp1 (paid_by e) of
           None \<Rightarrow> pp1
         | Some inner \<Rightarrow>
             pp1(paid_by e \<mapsto> inner(currency e \<mapsto> or0 (inner (currency e)) + amount e)))"

text \<open>The body of the first \<^verbatim>\<open>expenses.forEach\<close>, on the pair \<open>(totals, perPerson)\<close>.\<close>

definition accumulate ::
  "'a Expense_scheme \<Rightarrow> (string \<rightharpoonup> rat) \<times> (string \<rightharpoonup> (string \<rightharpoonup> rat))
     \<Rightarrow> (string \<rightharpoonup> rat) \<times> (string \<rightharpoonup> (string \<rightharpoonup> rat))" where
  "accumulate e s = (add_total e (fst s), add_perPerson e (snd s))"

text \<open>
  \<^verbatim>\<open>byCurrency\<close> is a \<^verbatim>\<open>Map<string, Expense[]>\<close>, iterated in insertion order: an
  association list, a new key going to the end.
\<close>

definition has_key :: "string \<Rightarrow> (string \<times> 'e list) list \<Rightarrow> bool" where
  "has_key k g = (k \<in> set (map fst g))"

text \<open>\<^verbatim>\<open>byCurrency.get(k)!.push(e)\<close>\<close>

definition push_at :: "string \<Rightarrow> 'e \<Rightarrow> (string \<times> 'e list) list \<Rightarrow> (string \<times> 'e list) list" where
  "push_at k e g = map (\<lambda>(k', items). if k' = k then (k', items @ [e]) else (k', items)) g"

text \<open>The body of the second \<^verbatim>\<open>expenses.forEach\<close>.\<close>

definition group_step ::
  "'a Expense_scheme \<Rightarrow> (string \<times> 'a Expense_scheme list) list
     \<Rightarrow> (string \<times> 'a Expense_scheme list) list" where
  "group_step e g =
     (if split e \<noteq> Equal then g
      else let g1 = (if \<not> has_key (currency e) g then g @ [(currency e, [])] else g)
           in push_at (currency e) e g1)"

definition byCurrency :: "'a Expense_scheme list \<Rightarrow> (string \<times> 'a Expense_scheme list) list" where
  "byCurrency expenses = fold group_step expenses []"

text \<open>\<^verbatim>\<open>PEOPLE.forEach((p) => (paid[p] = 0))\<close>, for a participant list \<open>ps\<close>.\<close>

definition paid_init :: "string list \<Rightarrow> (string \<rightharpoonup> rat)" where
  "paid_init ps = fold (\<lambda>p paid. paid(p \<mapsto> 0)) ps Map.empty"

text \<open>\<^verbatim>\<open>paid[e.paid_by] = (paid[e.paid_by] || 0) + e.amount\<close>\<close>

definition add_paid :: "'a Expense_scheme \<Rightarrow> (string \<rightharpoonup> rat) \<Rightarrow> (string \<rightharpoonup> rat)" where
  "add_paid e paid = paid(paid_by e \<mapsto> or0 (paid (paid_by e)) + amount e)"

definition paid_of :: "string list \<Rightarrow> 'a Expense_scheme list \<Rightarrow> (string \<rightharpoonup> rat)" where
  "paid_of ps items = fold add_paid items (paid_init ps)"

text \<open>
  \<^verbatim>\<open>items.reduce((s, e) => s + e.amount, 0)\<close>. The sum is exact here; the code adds
  doubles and rounds each addition, in \<^verbatim>\<open>paid\<close> and in \<^verbatim>\<open>totalShared\<close> separately, so
  what is proved below of the two sums together is proved of exact arithmetic.
\<close>

definition totalShared :: "'a Expense_scheme list \<Rightarrow> rat" where
  "totalShared items = fold (\<lambda>e s. s + amount e) items 0"

text \<open>
  \<^verbatim>\<open>totalShared / PEOPLE.length\<close>. For an empty participant list the JavaScript value is
  not a finite number and the HOL value is 0; no participant is visited then, so the value
  is never read (lemma \<open>fold_person_step_Nil\<close> below).
\<close>

definition perHead :: "string list \<Rightarrow> 'a Expense_scheme list \<Rightarrow> rat" where
  "perHead ps items = totalShared items / of_nat (length ps)"

text \<open>
  The body of the inner \<^verbatim>\<open>PEOPLE.forEach((person) => ...)\<close>. \<^verbatim>\<open>find\<close> returns the
  first match or \<^verbatim>\<open>undefined\<close>; \<^verbatim>\<open>if (creditor)\<close> also fails on the empty string.
\<close>

definition person_step ::
  "string list \<Rightarrow> (string \<rightharpoonup> rat) \<Rightarrow> rat \<Rightarrow> string \<Rightarrow> string \<Rightarrow> Debt list \<Rightarrow> Debt list" where
  "person_step ps paid h cur person ds =
     (let diff = or0 (paid person) - h
      in if diff < - (1 / 100) then
           (case find (\<lambda>p. p \<noteq> person \<and> or0 (paid p) > h) ps of
              None \<Rightarrow> ds
            | Some creditor \<Rightarrow>
                if creditor \<noteq> [] then
                  ds @ [\<lparr>d_from = person, d_to = creditor, d_amount = \<bar>diff\<bar>, d_currency = cur\<rparr>]
                else ds)
         else ds)"

text \<open>The body of \<^verbatim>\<open>byCurrency.forEach((items, cur) => ...)\<close>.\<close>

definition currency_step ::
  "string list \<Rightarrow> string \<times> 'a Expense_scheme list \<Rightarrow> Debt list \<Rightarrow> Debt list" where
  "currency_step ps g ds =
     (let paid = paid_of ps (snd g);
          h = perHead ps (snd g)
      in fold (person_step ps paid h (fst g)) ps ds)"

definition debts_of :: "string list \<Rightarrow> 'a Expense_scheme list \<Rightarrow> Debt list" where
  "debts_of ps expenses = fold (currency_step ps) (byCurrency expenses) []"

text \<open>
  The whole memo, with the participant list as a parameter; the screen runs it with the
  module constant \<open>PEOPLE\<close>.
\<close>

definition summary_of :: "string list \<Rightarrow> 'a Expense_scheme list \<Rightarrow> Summary" where
  "summary_of ps expenses =
     (let s = fold accumulate expenses (Map.empty, Map.empty)
      in \<lparr>totals = fst s, perPerson = snd s, debts = debts_of ps expenses\<rparr>)"

definition summary :: "'a Expense_scheme list \<Rightarrow> Summary" where
  "summary expenses = summary_of PEOPLE expenses"

text \<open>An expense with the fields the calculation reads; the other fields are fixed.\<close>

definition mk_expense :: "rat \<Rightarrow> string \<Rightarrow> string \<Rightarrow> split_mode \<Rightarrow> Expense" where
  "mk_expense a c p s =
     \<lparr>expense_id = ''1'', trip_id = ''t'', title = ''x'', amount = a, currency = c,
      category = None, paid_by = p, split = s, added_by = ''zeynep'', created_at = ''''\<rparr>"

section \<open>Notions used in the statements\<close>

text \<open>The sum of \<open>amount\<close> over the expenses that satisfy \<open>P\<close>.\<close>

definition sum_amount :: "('a Expense_scheme \<Rightarrow> bool) \<Rightarrow> 'a Expense_scheme list \<Rightarrow> rat" where
  "sum_amount P xs = sum_list (map amount (filter P xs))"

text \<open>The equal-split expenses of currency \<open>c\<close>, in input order.\<close>

definition items_of :: "string \<Rightarrow> 'a Expense_scheme list \<Rightarrow> 'a Expense_scheme list" where
  "items_of c xs = filter (\<lambda>e. split e = Equal \<and> currency e = c) xs"

text \<open>Reading \<^verbatim>\<open>perPerson[p]?.[c]\<close>: \<open>None\<close> when either key is missing.\<close>

definition perPerson_at :: "Summary \<Rightarrow> string \<Rightarrow> string \<Rightarrow> rat option" where
  "perPerson_at s p c = (case perPerson s p of None \<Rightarrow> None | Some m \<Rightarrow> m c)"








section \<open>Example inputs\<close>

definition exA :: "Expense list" where
  "exA = [mk_expense 100 ''TRY'' ''zeynep'' Equal, mk_expense 0 ''TRY'' ''bartu'' Equal]"

definition debtA :: Debt where
  "debtA = \<lparr>d_from = ''bartu'', d_to = ''zeynep'', d_amount = 50, d_currency = ''TRY''\<rparr>"

definition exB :: "Expense list" where
  "exB = [mk_expense 40 ''EUR'' ''zeynep'' Solo, mk_expense 10 ''EUR'' ''bartu'' Equal,
          mk_expense 5 ''USD'' ''zeynep'' Equal]"

definition exSolo :: Expense where
  "exSolo = mk_expense 40 ''EUR'' ''zeynep'' Solo"

definition exEven :: "Expense list" where
  "exEven = [mk_expense 50 ''TRY'' ''zeynep'' Equal, mk_expense 50 ''TRY'' ''bartu'' Equal]"




definition exD :: "Expense list" where
  "exD = [mk_expense 100 ''TRY'' ''zeynep'' Equal, mk_expense 30 ''USD'' ''bartu'' Equal,
          mk_expense 20 ''TRY'' ''bartu'' Equal, mk_expense 7 ''USD'' ''bartu'' Solo]"

definition exD_TRY :: "Expense list" where
  "exD_TRY = [mk_expense 100 ''TRY'' ''zeynep'' Equal,
              mk_expense 20 ''TRY'' ''bartu'' Equal, mk_expense 7 ''USD'' ''bartu'' Solo]"

lemmas eval_defs = summary_def summary_of_def debts_of_def byCurrency_def mk_expense_def PEOPLE_def
     accumulate_def add_total_def add_perPerson_def or0_def group_step_def has_key_def push_at_def
     currency_step_def paid_of_def paid_init_def
     add_paid_def perHead_def totalShared_def person_step_def Let_def


section \<open>Properties of the calculation\<close>

subsection \<open>Sums and the two aggregates\<close>

lemma filter_none: "k \<notin> f ` set xs \<Longrightarrow> filter (\<lambda>e. f e = k) xs = []"
  by (auto simp: filter_empty_conv)

lemma sum_amount_none: "k \<notin> f ` set xs \<Longrightarrow> sum_amount (\<lambda>e. f e = k) xs = 0"
  by (simp add: sum_amount_def filter_none)

lemma sum_amount_Cons:
  "sum_amount P (e # xs) = (if P e then amount e + sum_amount P xs else sum_amount P xs)"
  by (simp add: sum_amount_def)

lemma sum_amount_append: "sum_amount P (xs @ ys) = sum_amount P xs + sum_amount P ys"
  by (simp add: sum_amount_def)

lemma sum_amount_filter:
  "sum_amount P (filter Q xs) = sum_amount (\<lambda>e. Q e \<and> P e) xs"
  by (simp add: sum_amount_def)

lemma fst_fold_accumulate: "fst (fold accumulate xs s) = fold add_total xs (fst s)"
  by (induction xs arbitrary: s) (simp_all add: accumulate_def)

lemma snd_fold_accumulate: "snd (fold accumulate xs s) = fold add_perPerson xs (snd s)"
  by (induction xs arbitrary: s) (simp_all add: accumulate_def)

lemma fold_add_total:
  "fold add_total xs t c =
     (if c \<in> currency ` set xs
      then Some (or0 (t c) + sum_amount (\<lambda>e. currency e = c) xs)
      else t c)"
proof (induction xs arbitrary: t)
  case Nil
  show ?case by simp
next
  case (Cons e xs)
  show ?case
    by (simp add: Cons.IH) (auto simp: add_total_def or0_def sum_amount_Cons sum_amount_none)
qed

lemma add_perPerson_eq:
  "add_perPerson e pp =
     pp(paid_by e \<mapsto> add_total e (case pp (paid_by e) of None \<Rightarrow> Map.empty | Some m \<Rightarrow> m))"
  by (auto simp: add_perPerson_def add_total_def Let_def split: option.splits)

lemma fold_add_perPerson:
  "fold add_perPerson xs pp p =
     (if p \<in> paid_by ` set xs
      then Some (fold add_total (filter (\<lambda>e. paid_by e = p) xs)
                   (case pp p of None \<Rightarrow> Map.empty | Some m \<Rightarrow> m))
      else pp p)"
proof (induction xs arbitrary: pp)
  case Nil
  show ?case by simp
next
  case (Cons e xs)
  show ?case
    by (simp add: Cons.IH) (auto simp: add_perPerson_eq filter_none)
qed

lemma totals_summary_of: "totals (summary_of ps xs) = fold add_total xs Map.empty"
  by (simp add: summary_of_def Let_def fst_fold_accumulate)

lemma perPerson_summary_of: "perPerson (summary_of ps xs) = fold add_perPerson xs Map.empty"
  by (simp add: summary_of_def Let_def snd_fold_accumulate)

lemma debts_summary_of: "debts (summary_of ps xs) = debts_of ps xs"
  by (simp add: summary_of_def Let_def)

lemma totals_eq:
  "totals (summary_of ps xs) c =
     (if c \<in> currency ` set xs then Some (sum_amount (\<lambda>e. currency e = c) xs) else None)"
  by (simp add: totals_summary_of fold_add_total or0_def)

lemma perPerson_eq:
  "perPerson (summary_of ps xs) p =
     (if p \<in> paid_by ` set xs
      then Some (\<lambda>c. if c \<in> currency ` set (filter (\<lambda>e. paid_by e = p) xs)
                      then Some (sum_amount (\<lambda>e. paid_by e = p \<and> currency e = c) xs)
                      else None)
      else None)"
proof -
  have "fold add_total (filter (\<lambda>e. paid_by e = p) xs) Map.empty =
        (\<lambda>c. if c \<in> currency ` set (filter (\<lambda>e. paid_by e = p) xs)
              then Some (sum_amount (\<lambda>e. paid_by e = p \<and> currency e = c) xs)
              else None)"
    by (rule ext) (simp add: fold_add_total or0_def sum_amount_filter)
  then show ?thesis
    by (simp add: perPerson_summary_of fold_add_perPerson)
qed

lemma or0_totals:
  "or0 (totals (summary_of ps xs) c) = sum_amount (\<lambda>e. currency e = c) xs"
  by (simp add: totals_eq or0_def sum_amount_none)

lemma perPerson_at_eq:
  "perPerson_at (summary_of ps xs) p c =
     (if \<exists>e\<in>set xs. paid_by e = p \<and> currency e = c
      then Some (sum_amount (\<lambda>e. paid_by e = p \<and> currency e = c) xs) else None)"
  by (auto simp: perPerson_at_def perPerson_eq)

lemma or0_perPerson_at:
  "or0 (perPerson_at (summary_of ps xs) p c) = sum_amount (\<lambda>e. paid_by e = p \<and> currency e = c) xs"
  by (auto simp: perPerson_at_eq or0_def sum_amount_def filter_empty_conv)

subsection \<open>Paid totals of a currency group\<close>

lemma fold_add_paid:
  "fold add_paid xs m p =
     (if p \<in> paid_by ` set xs
      then Some (or0 (m p) + sum_amount (\<lambda>e. paid_by e = p) xs)
      else m p)"
proof (induction xs arbitrary: m)
  case Nil
  show ?case by simp
next
  case (Cons e xs)
  show ?case
    by (simp add: Cons.IH) (auto simp: add_paid_def or0_def sum_amount_Cons sum_amount_none)
qed

lemma paid_init_eq: "paid_init ps p = (if p \<in> set ps then Some 0 else None)"
proof -
  have "fold (\<lambda>p paid. paid(p \<mapsto> 0)) ps m p = (if p \<in> set ps then Some (0::rat) else m p)" for m
    by (induction ps arbitrary: m) auto
  then show ?thesis by (simp add: paid_init_def)
qed

lemma paid_of_eq:
  "paid_of ps items p =
     (if p \<in> paid_by ` set items then Some (sum_amount (\<lambda>e. paid_by e = p) items)
      else if p \<in> set ps then Some 0 else None)"
  by (simp add: paid_of_def fold_add_paid paid_init_eq or0_def)

lemma or0_paid_of: "or0 (paid_of ps items p) = sum_amount (\<lambda>e. paid_by e = p) items"
  by (auto simp: paid_of_def fold_add_paid paid_init_eq or0_def sum_amount_none)

lemma totalShared_eq: "totalShared items = sum_list (map amount items)"
proof -
  have "fold (\<lambda>e s. s + amount e) items a = a + sum_list (map amount items)" for a
    by (induction items arbitrary: a) simp_all
  then show ?thesis by (simp add: totalShared_def)
qed

subsection \<open>Grouping by currency\<close>

lemma keys_push_at: "map fst (push_at k e g) = map fst g"
  by (induction g) (auto simp: push_at_def)

lemma map_of_push_at:
  "map_of (push_at k e g) c =
     (if c = k then map_option (\<lambda>l. l @ [e]) (map_of g k) else map_of g c)"
  by (induction g) (auto simp: push_at_def)

lemma map_of_snoc_new:
  "k \<notin> set (map fst g) \<Longrightarrow> map_of (g @ [(k, v)]) c = (if c = k then Some v else map_of g c)"
  by (induction g) auto

lemma has_key_map_of: "has_key k g \<longleftrightarrow> map_of g k \<noteq> None"
  by (simp add: has_key_def map_of_eq_None_iff)

lemma distinct_group_step: "distinct (map fst g) \<Longrightarrow> distinct (map fst (group_step e g))"
  by (simp add: group_step_def Let_def keys_push_at has_key_def)

lemma map_of_group_step:
  "map_of (group_step e g) c =
     (if split e = Equal \<and> currency e = c
      then Some ((case map_of g c of None \<Rightarrow> [] | Some l \<Rightarrow> l) @ [e])
      else map_of g c)"
proof (cases "has_key (currency e) g")
  case True
  then show ?thesis
    by (auto simp: group_step_def map_of_push_at has_key_map_of)
next
  case False
  then have "currency e \<notin> set (map fst g)" by (simp add: has_key_def)
  with False show ?thesis
    by (auto simp: group_step_def map_of_push_at map_of_snoc_new has_key_map_of
        simp del: map_of_append)
qed

lemma items_of_Cons:
  "items_of c (e # xs) =
     (if split e = Equal \<and> currency e = c then e # items_of c xs else items_of c xs)"
  by (simp add: items_of_def)

lemma items_of_append: "items_of c (xs @ ys) = items_of c xs @ items_of c ys"
  by (simp add: items_of_def)

lemma fold_group_step:
  "map_of (fold group_step xs g) c =
     (case map_of g c of
        Some l \<Rightarrow> Some (l @ items_of c xs)
      | None \<Rightarrow> if items_of c xs = [] then None else Some (items_of c xs))"
proof (induction xs arbitrary: g)
  case Nil
  show ?case by (simp add: items_of_def split: option.splits)
next
  case (Cons e xs)
  show ?case
    by (simp add: Cons.IH map_of_group_step items_of_Cons split: option.splits)
qed

lemma distinct_fold_group_step:
  "distinct (map fst g) \<Longrightarrow> distinct (map fst (fold group_step xs g))"
  by (induction xs arbitrary: g) (simp_all add: distinct_group_step)

lemma distinct_byCurrency: "distinct (map fst (byCurrency xs))"
  by (simp add: byCurrency_def distinct_fold_group_step)

lemma map_of_byCurrency:
  "map_of (byCurrency xs) c = (if items_of c xs = [] then None else Some (items_of c xs))"
  by (simp add: byCurrency_def fold_group_step)

lemma byCurrency_items:
  assumes "(c, items) \<in> set (byCurrency xs)"
  shows "items = items_of c xs"
proof -
  from assms distinct_byCurrency[of xs] have "map_of (byCurrency xs) c = Some items"
    by simp
  then show ?thesis
    by (simp add: map_of_byCurrency split: if_splits)
qed

lemma group_step_Solo: "split e \<noteq> Equal \<Longrightarrow> group_step e g = g"
  by (simp add: group_step_def)

lemma fold_group_step_filter:
  "fold group_step xs g = fold group_step (filter (\<lambda>e. split e = Equal) xs) g"
  by (induction xs arbitrary: g) (simp_all add: group_step_Solo)

subsection \<open>The debts of a currency group\<close>

lemma person_step_append:
  "person_step ps paid h cur p ds = ds @ person_step ps paid h cur p []"
  by (simp add: person_step_def Let_def split: option.splits)

lemma fold_person_step:
  "fold (person_step ps paid h cur) qs ds =
     ds @ concat (map (\<lambda>p. person_step ps paid h cur p []) qs)"
proof (induction qs arbitrary: ds)
  case Nil
  show ?case by simp
next
  case (Cons q qs)
  show ?case
    by (simp add: Cons.IH) (subst person_step_append, simp)
qed

lemma fold_person_step_Nil: "fold (person_step ps paid h cur) [] ds = ds"
  by simp

lemma currency_step_eq:
  "currency_step ps g ds =
     ds @ concat (map (\<lambda>p. person_step ps (paid_of ps (snd g)) (perHead ps (snd g)) (fst g) p []) ps)"
  by (simp add: currency_step_def Let_def fold_person_step)

lemma fold_currency_step:
  "fold (currency_step ps) gs ds = ds @ concat (map (\<lambda>g. currency_step ps g []) gs)"
proof (induction gs arbitrary: ds)
  case Nil
  show ?case by simp
next
  case (Cons g gs)
  show ?case
    by (simp add: Cons.IH) (simp add: currency_step_eq)
qed

lemma debts_of_eq: "debts_of ps xs = concat (map (\<lambda>g. currency_step ps g []) (byCurrency xs))"
  by (simp add: debts_of_def fold_currency_step)

lemma in_person_step:
  assumes "d \<in> set (person_step ps paid h cur p [])"
  shows "d_from d = p \<and> d_to d \<in> set ps \<and> d_to d \<noteq> p \<and> d_currency d = cur
         \<and> or0 (paid p) - h < - (1 / 100) \<and> d_amount d = \<bar>or0 (paid p) - h\<bar>
         \<and> h < or0 (paid (d_to d))"
proof -
  let ?diff = "or0 (paid p) - h"
  from assms have lt: "?diff < - (1 / 100)"
    by (cases "?diff < - (1 / 100)") (simp_all add: person_step_def Let_def)
  from assms lt obtain q where q: "find (\<lambda>q. q \<noteq> p \<and> h < or0 (paid q)) ps = Some q"
    by (cases "find (\<lambda>q. q \<noteq> p \<and> h < or0 (paid q)) ps") (simp_all add: person_step_def Let_def)
  from assms lt q
  have d: "d = \<lparr>d_from = p, d_to = q, d_amount = \<bar>?diff\<bar>, d_currency = cur\<rparr>"
    by (cases "q = []") (simp_all add: person_step_def Let_def)
  from q have "q \<in> set ps \<and> q \<noteq> p \<and> h < or0 (paid q)"
    by (auto simp: find_Some_iff)
  with lt d show ?thesis by simp
qed

lemma in_currency_step:
  assumes "d \<in> set (currency_step ps (c, items) [])"
  shows "d_from d \<in> set ps \<and> d_to d \<in> set ps \<and> d_to d \<noteq> d_from d \<and> d_currency d = c
         \<and> or0 (paid_of ps items (d_from d)) - perHead ps items < - (1 / 100)
         \<and> d_amount d = \<bar>or0 (paid_of ps items (d_from d)) - perHead ps items\<bar>
         \<and> perHead ps items < or0 (paid_of ps items (d_to d))"
proof -
  from assms
  have "d \<in> set (concat (map (\<lambda>p. person_step ps (paid_of ps items) (perHead ps items) c p []) ps))"
    by (simp add: currency_step_eq)
  then obtain p where p: "p \<in> set ps"
    and d: "d \<in> set (person_step ps (paid_of ps items) (perHead ps items) c p [])"
    by auto
  from in_person_step[OF d] p show ?thesis by simp
qed

lemma currency_step_Nil: "currency_step ps (c, []) [] = []"
proof -
  have none: "person_step ps (paid_of ps []) (perHead ps []) c p [] = []" for p
    by (simp add: person_step_def or0_paid_of sum_amount_def perHead_def totalShared_eq)
  show ?thesis by (simp add: currency_step_eq none)
qed

lemma filter_currency_step:
  "filter (\<lambda>d. d_currency d = c) (currency_step ps (k, items) []) =
     (if k = c then currency_step ps (k, items) [] else [])"
  by (auto simp: filter_empty_conv filter_id_conv dest: in_currency_step)

lemma filter_concat_groups:
  "distinct (map fst gs) \<Longrightarrow>
   filter (\<lambda>d. d_currency d = c) (concat (map (\<lambda>g. currency_step ps g []) gs)) =
     (case map_of gs c of None \<Rightarrow> [] | Some items \<Rightarrow> currency_step ps (c, items) [])"
proof (induction gs)
  case Nil
  show ?case by simp
next
  case (Cons g gs)
  obtain k items where g: "g = (k, items)" by (cases g)
  from Cons.prems g have "map_of gs k = None"
    by (simp add: map_of_eq_None_iff)
  with Cons g show ?case
    by (simp add: filter_currency_step)
qed

lemma debts_of_currency:
  "filter (\<lambda>d. d_currency d = c) (debts_of ps xs) = currency_step ps (c, items_of c xs) []"
  by (simp add: debts_of_eq filter_concat_groups distinct_byCurrency map_of_byCurrency
      currency_step_Nil)

lemma in_debts_of:
  "d \<in> set (debts_of ps xs) \<longleftrightarrow>
   d \<in> set (currency_step ps (d_currency d, items_of (d_currency d) xs) [])"
proof -
  have "d \<in> set (debts_of ps xs) \<longleftrightarrow>
        d \<in> set (filter (\<lambda>d'. d_currency d' = d_currency d) (debts_of ps xs))"
    by simp
  then show ?thesis by (simp only: debts_of_currency)
qed

lemma debts_participants:
  "d \<in> set (debts (summary xs)) \<Longrightarrow> d_from d \<in> set PEOPLE \<and> d_to d \<in> set PEOPLE"
  by (auto simp: summary_def debts_summary_of in_debts_of dest: in_currency_step)

lemma debts_of_filter_Equal: "debts_of ps xs = debts_of ps (filter (\<lambda>e. split e = Equal) xs)"
  by (simp add: debts_of_def byCurrency_def fold_group_step_filter[of xs])

lemma debts_of_no_participants: "debts_of [] xs = []"
proof -
  have "currency_step [] g [] = []" for g :: "string \<times> 'a Expense_scheme list"
    by (simp add: currency_step_def)
  then show ?thesis by (simp add: debts_of_eq)
qed

subsection \<open>Permuted input\<close>

lemma sum_amount_mset: "mset xs = mset ys \<Longrightarrow> sum_amount P xs = sum_amount P ys"
proof -
  assume eq: "mset xs = mset ys"
  have "sum_amount P zs = sum_mset (image_mset amount (filter_mset P (mset zs)))" for zs :: "'a Expense_scheme list"
    by (simp add: sum_amount_def flip: sum_mset_sum_list)
  with eq show ?thesis by simp
qed

lemma totals_mset:
  assumes "mset xs = mset ys"
  shows "totals (summary_of ps xs) = totals (summary_of ps ys)"
proof (rule ext)
  fix c
  from assms have "set xs = set ys" by (rule mset_eq_setD)
  with sum_amount_mset[OF assms] show "totals (summary_of ps xs) c = totals (summary_of ps ys) c"
    by (simp add: totals_eq)
qed

lemma perPerson_mset:
  assumes "mset xs = mset ys"
  shows "perPerson (summary_of ps xs) = perPerson (summary_of ps ys)"
proof (rule ext)
  fix p
  from assms have s: "set xs = set ys" by (rule mset_eq_setD)
  from assms have "mset (filter (\<lambda>e. paid_by e = p) xs) = mset (filter (\<lambda>e. paid_by e = p) ys)"
    by simp
  then have f: "set (filter (\<lambda>e. paid_by e = p) xs) = set (filter (\<lambda>e. paid_by e = p) ys)"
    by (rule mset_eq_setD)
  show "perPerson (summary_of ps xs) p = perPerson (summary_of ps ys) p"
    unfolding perPerson_eq f s sum_amount_mset[OF assms] ..
qed

lemma paid_of_mset:
  assumes "mset xs = mset ys"
  shows "paid_of ps xs = paid_of ps ys"
proof (rule ext)
  fix p
  from assms have "set xs = set ys" by (rule mset_eq_setD)
  with sum_amount_mset[OF assms] show "paid_of ps xs p = paid_of ps ys p"
    by (simp add: paid_of_eq)
qed

lemma perHead_mset: "mset xs = mset ys \<Longrightarrow> perHead ps xs = perHead ps ys"
proof -
  assume "mset xs = mset ys"
  then have "mset (map amount xs) = mset (map amount ys)" by simp
  then have "sum_list (map amount xs) = sum_list (map amount ys)"
    by (metis sum_mset_sum_list)
  then show ?thesis by (simp add: perHead_def totalShared_eq)
qed

lemma currency_step_mset:
  "mset xs = mset ys \<Longrightarrow> currency_step ps (c, xs) ds = currency_step ps (c, ys) ds"
  by (simp add: currency_step_def paid_of_mset[of xs ys] perHead_mset[of xs ys])

lemma items_of_mset: "mset xs = mset ys \<Longrightarrow> mset (items_of c xs) = mset (items_of c ys)"
  by (simp add: items_of_def)

subsection \<open>Two participants\<close>










subsection \<open>Money owed and money due\<close>







section \<open>The claims\<close>

subsection \<open>Totals\<close>

text \<open>
  C3. For every list of expenses, \<open>totals\<close> maps each currency that occurs to the sum of
  \<open>amount\<close> over all expenses in that currency, and \<open>perPerson\<close> maps each payer that
  occurs, and each currency that payer paid in, to the sum of \<open>amount\<close> that payer paid
  in that currency. The split mode is not looked at: solo and equal expenses both count.
\<close>

theorem summary_totals:
  "totals (summary xs) c =
     (if c \<in> currency ` set xs then Some (sum_amount (\<lambda>e. currency e = c) xs) else None)
   \<and> perPerson (summary xs) p =
     (if p \<in> paid_by ` set xs
      then Some (\<lambda>c. if c \<in> currency ` set (filter (\<lambda>e. paid_by e = p) xs)
                      then Some (sum_amount (\<lambda>e. paid_by e = p \<and> currency e = c) xs)
                      else None)
      else None)"
  unfolding summary_def using totals_eq[of PEOPLE xs c] perPerson_eq[of PEOPLE xs p] by simp

theorem summary_totals_witness:
  "''EUR'' \<in> currency ` set exB \<and> totals (summary exB) ''EUR'' = Some 50
   \<and> ''zeynep'' \<in> paid_by ` set exB
   \<and> perPerson_at (summary exB) ''zeynep'' ''EUR'' = Some 40
   \<and> perPerson_at (summary exB) ''zeynep'' ''GBP'' = None"
  using summary_totals[of exB "''EUR''" "''zeynep''"]
  by (simp add: exB_def mk_expense_def sum_amount_def perPerson_at_def)

text \<open>
  C9. For the empty expense list the calculation returns empty aggregates: \<open>totals\<close> has
  no key, \<open>perPerson\<close> has no key and \<open>debts\<close> is the empty list.
\<close>

theorem summary_empty:
  "totals (summary ([] :: Expense list)) = Map.empty
   \<and> perPerson (summary ([] :: Expense list)) = Map.empty
   \<and> debts (summary ([] :: Expense list)) = []"
  by (simp add: summary_def summary_of_def debts_of_def byCurrency_def)

text \<open>
  C7. Scenario A: with the participants zeynep and bartu and the two equal-split expenses
  100 TRY paid by zeynep and 0 TRY paid by bartu, the total for TRY is 100 and the only
  debt is bartu to zeynep, 50 TRY.
\<close>

theorem scenario_A:
  "totals (summary exA) ''TRY'' = Some 100
   \<and> debts (summary exA)
       = [\<lparr>d_from = ''bartu'', d_to = ''zeynep'', d_amount = 50, d_currency = ''TRY''\<rparr>]"
  by (simp add: exA_def eval_defs)

subsection \<open>Solo expenses, currencies, input order\<close>

text \<open>
  C4. A solo expense \<open>e\<close>, wherever it stands in the list, adds its amount to the total
  of its currency and to the total of its payer in that currency, and the debts are the
  same with and without it; a list of solo expenses only has no debts.
\<close>

theorem solo_exclusion:
  assumes "split e = Solo"
  shows "totals (summary (xs @ e # ys)) (currency e)
           = Some (or0 (totals (summary (xs @ ys)) (currency e)) + amount e)
       \<and> perPerson_at (summary (xs @ e # ys)) (paid_by e) (currency e)
           = Some (or0 (perPerson_at (summary (xs @ ys)) (paid_by e) (currency e)) + amount e)
       \<and> debts (summary (xs @ e # ys)) = debts (summary (xs @ ys))
       \<and> ((\<forall>x\<in>set zs. split x = Solo) \<longrightarrow> debts (summary zs) = [])"
proof -
  have t: "totals (summary (xs @ e # ys)) (currency e)
           = Some (or0 (totals (summary (xs @ ys)) (currency e)) + amount e)"
    unfolding summary_def or0_totals
    by (simp add: totals_eq sum_amount_append sum_amount_Cons)
  have p: "perPerson_at (summary (xs @ e # ys)) (paid_by e) (currency e)
           = Some (or0 (perPerson_at (summary (xs @ ys)) (paid_by e) (currency e)) + amount e)"
    unfolding summary_def or0_perPerson_at
    by (simp add: perPerson_at_eq sum_amount_append sum_amount_Cons)
  from assms have d: "debts (summary (xs @ e # ys)) = debts (summary (xs @ ys))"
    unfolding summary_def debts_summary_of
    by (subst debts_of_filter_Equal, subst (2) debts_of_filter_Equal) simp
  have "debts (summary zs) = []" if "\<forall>x\<in>set zs. split x = Solo"
  proof -
    from that have "filter (\<lambda>e. split e = Equal) zs = []"
      by (auto simp: filter_empty_conv)
    with debts_of_filter_Equal[of PEOPLE zs] have "debts_of PEOPLE zs = []"
      by (simp add: debts_of_def byCurrency_def)
    then show ?thesis
      by (simp add: summary_def debts_summary_of)
  qed
  with t p d show ?thesis by blast
qed

theorem solo_exclusion_witness:
  "split exSolo = Solo
   \<and> totals (summary [exSolo]) ''EUR'' = Some 40
   \<and> perPerson_at (summary [exSolo]) ''zeynep'' ''EUR'' = Some 40
   \<and> debts (summary (exA @ [exSolo])) = debts (summary exA)
   \<and> debts (summary [exSolo]) = []"
  using solo_exclusion[of exSolo "[]" "[]" "[exSolo]"] solo_exclusion[of exSolo exA "[]" "[]"]
  by (simp add: exSolo_def exA_def perPerson_at_def eval_defs)

text \<open>
  C5. For two distinct currencies A and B, an expense \<open>e\<close> in currency A, put into the
  list at any place or taken out of it, leaves unchanged the total of B, every payer's
  total in B, and the debts in currency B (with their order).
\<close>

theorem currency_isolation:
  assumes "currency e \<noteq> B"
  shows "totals (summary (xs @ e # ys)) B = totals (summary (xs @ ys)) B
       \<and> perPerson_at (summary (xs @ e # ys)) p B = perPerson_at (summary (xs @ ys)) p B
       \<and> filter (\<lambda>d. d_currency d = B) (debts (summary (xs @ e # ys)))
           = filter (\<lambda>d. d_currency d = B) (debts (summary (xs @ ys)))"
proof -
  from assms have t: "totals (summary (xs @ e # ys)) B = totals (summary (xs @ ys)) B"
    by (auto simp: summary_def totals_eq sum_amount_append sum_amount_Cons)
  from assms
  have p: "perPerson_at (summary (xs @ e # ys)) p B = perPerson_at (summary (xs @ ys)) p B"
    by (auto simp: summary_def perPerson_at_eq sum_amount_append sum_amount_Cons)
  from assms have "items_of B (xs @ e # ys) = items_of B (xs @ ys)"
    by (simp add: items_of_append items_of_Cons)
  then have d: "filter (\<lambda>d. d_currency d = B) (debts (summary (xs @ e # ys)))
           = filter (\<lambda>d. d_currency d = B) (debts (summary (xs @ ys)))"
    by (simp add: summary_def debts_summary_of debts_of_currency)
  from t p d show ?thesis by simp
qed

theorem currency_isolation_witness:
  "currency (mk_expense 30 ''USD'' ''bartu'' Equal) \<noteq> ''TRY''
   \<and> totals (summary exD) ''TRY'' = Some 120
   \<and> totals (summary exD_TRY) ''TRY'' = Some 120
   \<and> perPerson_at (summary exD) ''bartu'' ''TRY'' = Some 20
   \<and> filter (\<lambda>d. d_currency d = ''TRY'') (debts (summary exD))
        = filter (\<lambda>d. d_currency d = ''TRY'') (debts (summary exD_TRY))
   \<and> debts (summary exD)
        = [\<lparr>d_from = ''bartu'', d_to = ''zeynep'', d_amount = 40, d_currency = ''TRY''\<rparr>,
           \<lparr>d_from = ''zeynep'', d_to = ''bartu'', d_amount = 15, d_currency = ''USD''\<rparr>]"
  using currency_isolation[of "mk_expense 30 ''USD'' ''bartu'' Equal" "''TRY''"
      "[mk_expense 100 ''TRY'' ''zeynep'' Equal]"
      "[mk_expense 20 ''TRY'' ''bartu'' Equal, mk_expense 7 ''USD'' ''bartu'' Solo]" "''bartu''"]
  by (simp add: exD_def exD_TRY_def perPerson_at_def eval_defs)

text \<open>
  C6. For a list of expenses and any permutation of it, \<open>totals\<close> and \<open>perPerson\<close> are
  the same maps and the debts are the same set of tuples (amounts being exact rationals).
\<close>

theorem order_independence:
  assumes "mset xs = mset ys"
  shows "totals (summary xs) = totals (summary ys)
       \<and> perPerson (summary xs) = perPerson (summary ys)
       \<and> set (debts (summary xs)) = set (debts (summary ys))"
proof -
  have "d \<in> set (debts_of PEOPLE xs) \<longleftrightarrow> d \<in> set (debts_of PEOPLE ys)" for d
    unfolding in_debts_of
    by (simp add: currency_step_mset[OF items_of_mset[OF assms]])
  then have "set (debts_of PEOPLE xs) = set (debts_of PEOPLE ys)" by blast
  with totals_mset[OF assms] perPerson_mset[OF assms] show ?thesis
    by (simp add: summary_def debts_summary_of)
qed

theorem order_independence_witness:
  "mset exA = mset (rev exA)
   \<and> totals (summary (rev exA)) ''TRY'' = Some 100
   \<and> debts (summary exA) = [debtA]
   \<and> debts (summary (rev exA)) = [debtA]"
  using order_independence[of exA "rev exA"]
  by (simp add: exA_def debtA_def eval_defs)

subsection \<open>Debts\<close>




text \<open>
  C8. Every debt has a strictly positive amount, and in every currency group a person
  whose paid total minus \<open>perHead\<close> is at least \<open>-0.01\<close> (an exact payer or an over-payer
  among them) is the debtor of no debt in that currency.
\<close>

theorem debts_positive:
  "(\<forall>d\<in>set (debts (summary xs)). 0 < d_amount d)
   \<and> (\<forall>(c, items)\<in>set (byCurrency xs). \<forall>p.
         - (1 / 100) \<le> or0 (paid_of PEOPLE items p) - perHead PEOPLE items \<longrightarrow>
         \<not> (\<exists>d\<in>set (debts (summary xs)). d_from d = p \<and> d_currency d = c))"
proof -
  have pos: "0 < d_amount d" if "d \<in> set (debts (summary xs))" for d
  proof -
    from that
    have "d \<in> set (currency_step PEOPLE (d_currency d, items_of (d_currency d) xs) [])"
      by (simp add: summary_def debts_summary_of in_debts_of)
    from in_currency_step[OF this] show ?thesis by simp
  qed
  have nodebt: False
    if g: "(c, items) \<in> set (byCurrency xs)"
      and ge: "- (1 / 100) \<le> or0 (paid_of PEOPLE items p) - perHead PEOPLE items"
      and d: "d \<in> set (debts (summary xs))" "d_from d = p" "d_currency d = c"
    for c items p d
  proof -
    from d have "d \<in> set (currency_step PEOPLE (c, items_of c xs) [])"
      by (simp add: summary_def debts_summary_of in_debts_of)
    from in_currency_step[OF this] d ge byCurrency_items[OF g] show False by simp
  qed
  from pos nodebt show ?thesis by blast
qed

theorem debts_positive_witness:
  "debtA \<in> set (debts (summary exA)) \<and> 0 < d_amount debtA
   \<and> (''TRY'', exA) \<in> set (byCurrency exA)
   \<and> - (1 / 100) \<le> or0 (paid_of PEOPLE exA ''zeynep'') - perHead PEOPLE exA
   \<and> d_from debtA \<noteq> ''zeynep''
   \<and> debts (summary exEven) = []"
  using debts_positive[of exA]
  by (simp add: exA_def exEven_def debtA_def eval_defs)




subsection \<open>No participants\<close>

text \<open>
  The claim C2 (an empty participant set is rejected) fails: the calculation has no
  rejecting path. Run with no participant and one equal-split expense, it returns the
  total and an empty list of debts.
\<close>

theorem no_participants_counterexample:
  "debts (summary_of [] [mk_expense 100 ''TRY'' ''zeynep'' Equal]) = []
   \<and> totals (summary_of [] [mk_expense 100 ''TRY'' ''zeynep'' Equal]) ''TRY'' = Some 100"
  by (simp add: eval_defs)

text \<open>
  C2, as amended. The participant list of the screen is the constant \<open>PEOPLE\<close> of two
  names, so \<open>perHead\<close> is the shared total divided by 2. The calculation never rejects:
  run with an empty participant list it returns the same \<open>totals\<close> and \<open>perPerson\<close> as
  with \<open>PEOPLE\<close>, and no debt.
\<close>

theorem no_rejection:
  "length PEOPLE = 2
   \<and> perHead PEOPLE items = totalShared items / 2
   \<and> debts (summary_of [] xs) = []
   \<and> totals (summary_of [] xs) = totals (summary xs)
   \<and> perPerson (summary_of [] xs) = perPerson (summary xs)"
  by (simp add: PEOPLE_def perHead_def debts_summary_of debts_of_no_participants
      summary_def totals_summary_of perPerson_summary_of)

end
